theory Spec2Isabelle
  imports Main "HOL-Library.Signed_Division"
begin

section \<open>The carousel of carousel/core.js and carousel/swipe.js\<close>

text \<open>
  The embedding follows the two classes of the repository: \<^verbatim>\<open>Carousel\<close> (core.js) and
  \<^verbatim>\<open>SwipeCarousel extends Carousel\<close> (swipe.js). An object is a record of its fields, the
  subclass is a record extension, and every method takes the object and returns it updated.

  What is kept of the DOM is what the methods read and write:
  \<^item> \<^verbatim>\<open>this.slides\<close> is the static NodeList of the constructor; an element is the
    presence of the class \<^verbatim>\<open>active\<close> in its \<^verbatim>\<open>classList\<close>;
  \<^item> \<^verbatim>\<open>#indicatorsContainer\<close> is \<open>None\<close> while the field is \<^verbatim>\<open>null\<close>, otherwise the
    list of its \<^verbatim>\<open>children\<close>, again as their \<^verbatim>\<open>active\<close> flags;
  \<^item> \<^verbatim>\<open>#pauseIcon\<close> and \<^verbatim>\<open>#playIcon\<close> are \<open>None\<close> while \<^verbatim>\<open>null\<close>, otherwise the value of
    \<^verbatim>\<open>style.opacity\<close>.

  The host's timer table is part of the state: \<open>host_intervals\<close> lists the handles of the
  intervals that are scheduled, \<open>host_lastId\<close> is the last handle handed out.
  \<^verbatim>\<open>setInterval\<close> returns a handle that is truthy (a positive integer in a browser,
  a Timeout object in Node), so the test \<^verbatim>\<open>if (this.#timerId)\<close> is the test for non-null.

  Slide indices and pointer coordinates are JavaScript numbers holding integers; they are
  modelled as \<open>int\<close>. JavaScript numbers are IEEE doubles: a sum of integers is the
  integer sum as long as the operands and the result are safe integers (of magnitude at
  most \<open>2 ^ 53 - 1\<close>), and is rounded beyond. The model's \<open>+\<close> is the integer sum, so it
  is the code's on safe integers only; a NodeList holds fewer than \<open>2 ^ 32\<close> nodes, so
  indices and the targets of \<^verbatim>\<open>next()\<close> and \<^verbatim>\<open>prev()\<close> are safe, and the statements about an arbitrary target
  index carry the bound as a hypothesis. The operator \<^verbatim>\<open>%\<close> is the truncating remainder,
  whose result has the sign of the dividend, and is exact on doubles: \<open>smod\<close> of the
  library theory Signed_Division.

  An exception does not undo the assignments made before it. A method that can throw
  returns \<open>Inl (e, s)\<close> when it throws \<open>e\<close> leaving the object in state \<open>s\<close>, and
  \<open>Inr s\<close> when it returns normally.
\<close>

subsection \<open>Objects\<close>

datatype error = TypeError

type_synonym 's result = "(error \<times> 's) + 's"

definition state_of :: "'s result \<Rightarrow> 's" where
  "state_of r = (case r of Inl (e, s) \<Rightarrow> s | Inr s \<Rightarrow> s)"

record carousel =
  slides :: "bool list"
  TIMER_INTERVAL :: int
  isPlaying :: bool
  pauseOnHover :: bool
  currentSlide :: int
  timerId :: "nat option"
  indicatorsContainer :: "bool list option"
  pauseIcon :: "string option"
  playIcon :: "string option"
  host_intervals :: "nat list"
  host_lastId :: nat

record swipe_carousel = carousel +
  startX :: int
  endX :: int
  swipeThreshold :: int

text \<open>
  \<^verbatim>\<open>#SLIDES_COUNT\<close> is private and assigned once, in the constructor, from
  \<^verbatim>\<open>this.slides.length\<close>; the NodeList is static. It is read off the list.
\<close>

definition SLIDES_COUNT :: "'a carousel_scheme \<Rightarrow> int" where
  "SLIDES_COUNT c = int (length (slides c))"

text \<open>\<^verbatim>\<open>xs[i]\<close> for an integer \<open>i\<close>: \<^verbatim>\<open>undefined\<close> out of range.\<close>

definition elem_at :: "'a list \<Rightarrow> int \<Rightarrow> 'a option" where
  "elem_at xs i = (if 0 \<le> i \<and> i < int (length xs) then Some (xs ! nat i) else None)"

text \<open>
  \<^verbatim>\<open>Number.MAX_SAFE_INTEGER\<close> and \<^verbatim>\<open>Number.isSafeInteger\<close>, on integers: the range in which
  doubles hold every integer and add integers without rounding.
\<close>

definition MAX_SAFE_INTEGER :: int where
  "MAX_SAFE_INTEGER = 2 ^ 53 - 1"

definition isSafeInteger :: "int \<Rightarrow> bool" where
  "isSafeInteger n \<longleftrightarrow> \<bar>n\<bar> \<le> MAX_SAFE_INTEGER"

subsection \<open>The host's timers\<close>

definition clearInterval :: "nat \<Rightarrow> 'a carousel_scheme \<Rightarrow> 'a carousel_scheme" where
  "clearInterval h c = c\<lparr>host_intervals := removeAll h (host_intervals c)\<rparr>"

definition setInterval :: "'a carousel_scheme \<Rightarrow> nat \<times> 'a carousel_scheme" where
  "setInterval c =
     (let h = Suc (host_lastId c)
      in (h, c\<lparr>host_intervals := host_intervals c @ [h], host_lastId := h\<rparr>))"

subsection \<open>Carousel (core.js)\<close>

record settings =
  interval :: int
  set_isPlaying :: bool
  set_pauseOnHover :: bool

definition DEFAULT_SETTINGS :: settings where
  "DEFAULT_SETTINGS = \<lparr>interval = 5000, set_isPlaying = True, set_pauseOnHover = True\<rparr>"

text \<open>
  The \<^verbatim>\<open>options\<close> argument: a key may be absent. The two selectors are left out; what
  they select is an argument of the constructor. \<open>merge\<close> is
  \<^verbatim>\<open>{...DEFAULT_SETTINGS, ...options}\<close>: a key of \<open>options\<close> wins.
\<close>

record options =
  opt_interval :: "int option"
  opt_isPlaying :: "bool option"
  opt_pauseOnHover :: "bool option"

definition merge :: "settings \<Rightarrow> options \<Rightarrow> settings" where
  "merge defaults opts =
     \<lparr>interval = (case opt_interval opts of Some v \<Rightarrow> v | None \<Rightarrow> interval defaults),
      set_isPlaying =
        (case opt_isPlaying opts of Some v \<Rightarrow> v | None \<Rightarrow> set_isPlaying defaults),
      set_pauseOnHover =
        (case opt_pauseOnHover opts of Some v \<Rightarrow> v | None \<Rightarrow> set_pauseOnHover defaults)\<rparr>"

text \<open>
  The constructor. Its second argument is what the two selector queries find:
  \<open>None\<close> when \<^verbatim>\<open>document.querySelector(settings.containerId)\<close> is \<^verbatim>\<open>null\<close>,
  otherwise the slides of the container.
\<close>

definition Carousel :: "options \<Rightarrow> bool list option \<Rightarrow> error + carousel" where
  "Carousel opts container =
     (case container of
        None \<Rightarrow> Inl TypeError
      | Some sl \<Rightarrow>
          Inr \<lparr>slides = sl,
               TIMER_INTERVAL = interval (merge DEFAULT_SETTINGS opts),
               isPlaying = set_isPlaying (merge DEFAULT_SETTINGS opts),
               pauseOnHover = set_pauseOnHover (merge DEFAULT_SETTINGS opts),
               currentSlide = 0,
               timerId = None,
               indicatorsContainer = None,
               pauseIcon = None,
               playIcon = None,
               host_intervals = [],
               host_lastId = 0\<rparr>)"

definition startTimer :: "'a carousel_scheme \<Rightarrow> 'a carousel_scheme" where
  "startTimer c =
     (let c1 = (case timerId c of Some h \<Rightarrow> clearInterval h c | None \<Rightarrow> c);
          (h', c2) = setInterval c1
      in c2\<lparr>timerId := Some h'\<rparr>)"

definition pause :: "'a carousel_scheme \<Rightarrow> 'a carousel_scheme" where
  "pause c =
     (let c1 = (case timerId c of
                  Some h \<Rightarrow> (clearInterval h c)\<lparr>timerId := None\<rparr>
                | None \<Rightarrow> c)
      in c1\<lparr>isPlaying := False\<rparr>)"

definition play :: "'a carousel_scheme \<Rightarrow> 'a carousel_scheme" where
  "play c = (startTimer c)\<lparr>isPlaying := True\<rparr>"

text \<open>
  The two pairs of \<^verbatim>\<open>classList\<close> lines of \<^verbatim>\<open>#gotoNth\<close>:
  \<^verbatim>\<open>this.slides[this.#currentSlide].classList.remove/add('active')\<close> and the same on
  \<^verbatim>\<open>this.#indicatorsContainer.children[this.#currentSlide]\<close>. Reading \<^verbatim>\<open>classList\<close> of
  \<^verbatim>\<open>undefined\<close>, or \<^verbatim>\<open>children\<close> of \<^verbatim>\<open>null\<close>, throws a TypeError; the first line
  has then already run.

  In \<open>gotoNth\<close> the sum \<^verbatim>\<open>n + this.#SLIDES_COUNT\<close> is the integer sum, which is what the
  code computes when \<open>n\<close>, the slide count and the sum are safe integers.
\<close>

definition markCurrent :: "bool \<Rightarrow> 'a carousel_scheme \<Rightarrow> 'a carousel_scheme result" where
  "markCurrent b c =
     (case elem_at (slides c) (currentSlide c) of
        None \<Rightarrow> Inl (TypeError, c)
      | Some _ \<Rightarrow>
          (let c1 = c\<lparr>slides := (slides c)[nat (currentSlide c) := b]\<rparr>
           in case indicatorsContainer c1 of
                None \<Rightarrow> Inl (TypeError, c1)
              | Some children \<Rightarrow>
                  (case elem_at children (currentSlide c1) of
                     None \<Rightarrow> Inl (TypeError, c1)
                   | Some _ \<Rightarrow>
                       Inr (c1\<lparr>indicatorsContainer :=
                                  Some (children[nat (currentSlide c1) := b])\<rparr>))))"

definition gotoNth :: "int \<Rightarrow> 'a carousel_scheme \<Rightarrow> 'a carousel_scheme result" where
  "gotoNth n c =
     (case markCurrent False c of
        Inl err \<Rightarrow> Inl err
      | Inr c1 \<Rightarrow>
          markCurrent True
            (c1\<lparr>currentSlide := (n + SLIDES_COUNT c1) smod SLIDES_COUNT c1\<rparr>))"

definition "next" :: "'a carousel_scheme \<Rightarrow> 'a carousel_scheme result" where
  "next c = (let c1 = pause c in gotoNth (currentSlide c1 + 1) c1)"

definition prev :: "'a carousel_scheme \<Rightarrow> 'a carousel_scheme result" where
  "prev c = (let c1 = pause c in gotoNth (currentSlide c1 - 1) c1)"

definition pausePlay :: "'a carousel_scheme \<Rightarrow> 'a carousel_scheme result" where
  "pausePlay c =
     (if isPlaying c then
        (let c1 = pause c in
         case pauseIcon c1 of
           None \<Rightarrow> Inl (TypeError, c1)
         | Some _ \<Rightarrow>
             (let c2 = c1\<lparr>pauseIcon := Some ''0''\<rparr> in
              case playIcon c2 of
                None \<Rightarrow> Inl (TypeError, c2)
              | Some _ \<Rightarrow> Inr (c2\<lparr>playIcon := Some ''1''\<rparr>)))
      else
        (let c1 = play c in
         case pauseIcon c1 of
           None \<Rightarrow> Inl (TypeError, c1)
         | Some _ \<Rightarrow>
             (let c2 = c1\<lparr>pauseIcon := Some ''1''\<rparr> in
              case playIcon c2 of
                None \<Rightarrow> Inl (TypeError, c2)
              | Some _ \<Rightarrow> Inr (c2\<lparr>playIcon := Some ''0''\<rparr>))))"

text \<open>
  \<^verbatim>\<open>#indicatorClick(e)\<close>: the first argument is
  \<^verbatim>\<open>target.classList.contains('indicator')\<close>, the second the number
  \<^verbatim>\<open>+target.dataset.slideTo\<close>.
\<close>

definition indicatorClick :: "bool \<Rightarrow> int \<Rightarrow> 'a carousel_scheme \<Rightarrow> 'a carousel_scheme result" where
  "indicatorClick isIndicator slideTo c =
     (if isIndicator then gotoNth slideTo (pause c) else Inr c)"

definition keydownHandler :: "string \<Rightarrow> 'a carousel_scheme \<Rightarrow> 'a carousel_scheme result" where
  "keydownHandler code c =
     (if code = ''ArrowLeft'' then prev c
      else if code = ''ArrowRight'' then next c
      else if code = ''Space'' then pausePlay c
      else Inr c)"

definition mouseenterHandler :: "'a carousel_scheme \<Rightarrow> 'a carousel_scheme" where
  "mouseenterHandler c = (if pauseOnHover c \<and> isPlaying c then pause c else c)"

definition mouseleaveHandler :: "'a carousel_scheme \<Rightarrow> 'a carousel_scheme" where
  "mouseleaveHandler c = (if pauseOnHover c \<and> \<not> isPlaying c then play c else c)"

definition createControls :: "'a carousel_scheme \<Rightarrow> 'a carousel_scheme" where
  "createControls c =
     c\<lparr>pauseIcon := Some (if isPlaying c then ''1'' else ''0''),
       playIcon := Some (if isPlaying c then ''0'' else ''1'')\<rparr>"

text \<open>
  \<^verbatim>\<open>#createIndicators\<close>: the first argument is the element
  \<^verbatim>\<open>#indicators-container\<close> found in the container (\<open>None\<close> when there is none), given
  by its children, which are taken to be its \<^verbatim>\<open>.indicator\<close> elements.
\<close>

definition createIndicators :: "bool list option \<Rightarrow> 'a carousel_scheme \<Rightarrow> 'a carousel_scheme" where
  "createIndicators existing c =
     (case existing of
        Some children \<Rightarrow>
          c\<lparr>indicatorsContainer :=
              Some (if 0 < length children
                    then map (\<lambda>idx. idx = 0) [0..<length children] else children)\<rparr>
      | None \<Rightarrow>
          c\<lparr>indicatorsContainer :=
              Some (map (\<lambda>i. i = 0) [0..<nat (SLIDES_COUNT c)])\<rparr>)"

definition init :: "bool list option \<Rightarrow> 'a carousel_scheme \<Rightarrow> 'a carousel_scheme" where
  "init existing c =
     (let c1 = createIndicators existing (createControls c)
      in if isPlaying c1 then startTimer c1 else c1)"

text \<open>The callback that \<^verbatim>\<open>#startTimer\<close> hands to \<^verbatim>\<open>setInterval\<close>.\<close>

definition timerCallback :: "'a carousel_scheme \<Rightarrow> 'a carousel_scheme result" where
  "timerCallback c = gotoNth (currentSlide c + 1) c"

text \<open>
  One period of \<^verbatim>\<open>TIMER_INTERVAL\<close> elapses: every scheduled interval runs its callback
  once. Every interval of the table was scheduled by \<^verbatim>\<open>#startTimer\<close>, so the callback
  is the same for all. An exception in a callback ends that callback only.
\<close>

definition intervalElapsed :: "'a carousel_scheme \<Rightarrow> 'a carousel_scheme" where
  "intervalElapsed c = fold (\<lambda>h s. state_of (timerCallback s)) (host_intervals c) c"

subsection \<open>SwipeCarousel (swipe.js)\<close>

definition SwipeCarousel :: "options \<Rightarrow> bool list option \<Rightarrow> error + swipe_carousel" where
  "SwipeCarousel opts container =
     (case Carousel opts container of
        Inl e \<Rightarrow> Inl e
      | Inr c \<Rightarrow>
          Inr (carousel.extend c
                 (swipe_carousel.fields 0 0 100)))"

definition touchStartHandler :: "int \<Rightarrow> 'a swipe_carousel_scheme \<Rightarrow> 'a swipe_carousel_scheme" where
  "touchStartHandler pageX c = c\<lparr>startX := pageX\<rparr>"

definition mouseDownHandler :: "int \<Rightarrow> 'a swipe_carousel_scheme \<Rightarrow> 'a swipe_carousel_scheme" where
  "mouseDownHandler pageX c = c\<lparr>startX := pageX\<rparr>"

definition handleSwipe :: "'a swipe_carousel_scheme \<Rightarrow> 'a swipe_carousel_scheme result" where
  "handleSwipe c =
     (let difference = startX c - endX c in
      if \<bar>difference\<bar> < swipeThreshold c then Inr c
      else if difference > 0 then next c
      else prev c)"

definition touchEndHandler :: "int \<Rightarrow> 'a swipe_carousel_scheme \<Rightarrow> 'a swipe_carousel_scheme result" where
  "touchEndHandler pageX c = handleSwipe (c\<lparr>endX := pageX\<rparr>)"

definition mouseUpHandler :: "int \<Rightarrow> 'a swipe_carousel_scheme \<Rightarrow> 'a swipe_carousel_scheme result" where
  "mouseUpHandler pageX c = handleSwipe (c\<lparr>endX := pageX\<rparr>)"

subsection \<open>Events\<close>

text \<open>
  The events an initialised SwipeCarousel receives, as the public methods and the
  listeners of \<^verbatim>\<open>#setListeners\<close> and \<^verbatim>\<open>#setSwipeListeners\<close> handle them
  (\<^verbatim>\<open>init()\<close> of SwipeCarousel is the inherited one, then attaches its listeners). The hover
  listeners are attached only when \<^verbatim>\<open>pauseOnHover\<close> holds, which the handlers test again.
  After an exception the object stays as the throwing handler left it, and later events
  find it so.
\<close>

datatype event =
    CallNext | CallPrev | CallPause | CallPlay | CallPausePlay
  | IndicatorsClick bool int
  | Keydown string
  | Mouseenter | Mouseleave
  | Touchstart int | Touchend int | Mousedown int | Mouseup int
  | IntervalElapsed

fun handle :: "event \<Rightarrow> 'a swipe_carousel_scheme \<Rightarrow> 'a swipe_carousel_scheme" where
  "handle CallNext c = state_of (next c)"
| "handle CallPrev c = state_of (prev c)"
| "handle CallPause c = pause c"
| "handle CallPlay c = play c"
| "handle CallPausePlay c = state_of (pausePlay c)"
| "handle (IndicatorsClick isIndicator slideTo) c = state_of (indicatorClick isIndicator slideTo c)"
| "handle (Keydown code) c = state_of (keydownHandler code c)"
| "handle Mouseenter c = (if pauseOnHover c then mouseenterHandler c else c)"
| "handle Mouseleave c = (if pauseOnHover c then mouseleaveHandler c else c)"
| "handle (Touchstart x) c = touchStartHandler x c"
| "handle (Touchend x) c = state_of (touchEndHandler x c)"
| "handle (Mousedown x) c = mouseDownHandler x c"
| "handle (Mouseup x) c = state_of (mouseUpHandler x c)"
| "handle IntervalElapsed c = intervalElapsed c"

definition run :: "event list \<Rightarrow> 'a swipe_carousel_scheme \<Rightarrow> 'a swipe_carousel_scheme" where
  "run evs c = fold handle evs c"

subsection \<open>Predicates and sample objects used in the statements\<close>

text \<open>
  An object is ready when \<^verbatim>\<open>#gotoNth\<close> finds what it touches: the current index names a
  slide, and the indicators container exists with a child for every slide.
\<close>

definition ready :: "'a carousel_scheme \<Rightarrow> bool" where
  "ready c \<longleftrightarrow>
     0 \<le> currentSlide c \<and> currentSlide c < SLIDES_COUNT c \<and>
     (case indicatorsContainer c of
        None \<Rightarrow> False
      | Some children \<Rightarrow> length (slides c) \<le> length children)"

text \<open>The intervals scheduled in the host are exactly the one the object holds a handle of.\<close>

definition owned :: "'a carousel_scheme \<Rightarrow> bool" where
  "owned c \<longleftrightarrow>
     host_intervals c = (case timerId c of None \<Rightarrow> [] | Some h \<Rightarrow> [h])"

text \<open>\<^verbatim>\<open>isPlaying\<close> tells whether the object holds a timer handle.\<close>

definition in_sync :: "'a carousel_scheme \<Rightarrow> bool" where
  "in_sync c \<longleftrightarrow> (isPlaying c \<longleftrightarrow> timerId c \<noteq> None)"

text \<open>The fields that \<^verbatim>\<open>#gotoNth\<close> never writes.\<close>

definition control :: "'a carousel_scheme \<Rightarrow> bool \<times> nat option \<times> nat list \<times> nat \<times> bool" where
  "control c = (isPlaying c, timerId c, host_intervals c, host_lastId c, pauseOnHover c)"

text \<open>
  The classification of a swipe as the specification words it (section 4.3), to be compared
  with \<open>handleSwipe\<close>. The specification's result \<^verbatim>\<open>None\<close> is \<open>NoSwipe\<close> here.
\<close>

datatype direction = NoSwipe | Forward | Backward

definition classify :: "int \<Rightarrow> int \<Rightarrow> int \<Rightarrow> direction" where
  "classify sX eX thresholdPx =
     (let diff = sX - eX in
      if \<bar>diff\<bar> < thresholdPx then NoSwipe
      else if diff > 0 then Forward
      else Backward)"

text \<open>
  \<^verbatim>\<open>new SwipeCarousel()\<close> on a page whose container holds the slides \<open>sl\<close>: no option is
  given, so every setting is the default one.
\<close>

definition no_options :: options where
  "no_options = \<lparr>opt_interval = None, opt_isPlaying = None, opt_pauseOnHover = None\<rparr>"

definition fresh :: "bool list \<Rightarrow> swipe_carousel" where
  "fresh sl =
     \<lparr>slides = sl, TIMER_INTERVAL = 5000, isPlaying = True, pauseOnHover = True,
      currentSlide = 0, timerId = None, indicatorsContainer = None,
      pauseIcon = None, playIcon = None, host_intervals = [], host_lastId = 0,
      startX = 0, endX = 0, swipeThreshold = 100\<rparr>"

section \<open>Properties\<close>

subsection \<open>Field-wise effect of the methods\<close>

lemma fresh_constructed: "SwipeCarousel no_options (Some sl) = Inr (fresh sl)"
  by (simp add: SwipeCarousel_def Carousel_def no_options_def fresh_def merge_def
        DEFAULT_SETTINGS_def carousel.defs swipe_carousel.defs)

lemma pause_fields [simp]:
  "isPlaying (pause c) = False" "timerId (pause c) = None"
  "currentSlide (pause c) = currentSlide c" "slides (pause c) = slides c"
  "indicatorsContainer (pause c) = indicatorsContainer c"
  "pauseOnHover (pause c) = pauseOnHover c"
  "pauseIcon (pause c) = pauseIcon c" "playIcon (pause c) = playIcon c"
  "host_lastId (pause c) = host_lastId c"
  by (simp_all add: pause_def clearInterval_def split: option.splits)

lemma pause_intervals:
  "host_intervals (pause c) =
     (case timerId c of None \<Rightarrow> host_intervals c | Some h \<Rightarrow> removeAll h (host_intervals c))"
  by (simp add: pause_def clearInterval_def split: option.splits)

lemma play_fields [simp]:
  "isPlaying (play c) = True" "timerId (play c) = Some (Suc (host_lastId c))"
  "currentSlide (play c) = currentSlide c" "slides (play c) = slides c"
  "indicatorsContainer (play c) = indicatorsContainer c"
  "pauseOnHover (play c) = pauseOnHover c"
  "pauseIcon (play c) = pauseIcon c" "playIcon (play c) = playIcon c"
  "host_lastId (play c) = Suc (host_lastId c)"
  by (simp_all add: play_def startTimer_def setInterval_def clearInterval_def Let_def
        split: option.splits)

lemma play_intervals:
  "host_intervals (play c) =
     (case timerId c of None \<Rightarrow> host_intervals c | Some h \<Rightarrow> removeAll h (host_intervals c))
     @ [Suc (host_lastId c)]"
  by (simp add: play_def startTimer_def setInterval_def clearInterval_def Let_def
        split: option.splits)

lemma ready_pause [simp]: "ready (pause c) = ready c"
  by (simp add: ready_def SLIDES_COUNT_def split: option.splits)

subsection \<open>The index computation of \<^verbatim>\<open>#gotoNth\<close>\<close>

lemma wrap_mod:
  assumes "0 < cnt" and "- cnt \<le> n"
  shows "(n + cnt) smod cnt = n mod (cnt::int)"
proof -
  have "0 \<le> n + cnt" using assms by simp
  then have "(n + cnt) smod cnt = (n + cnt) mod cnt"
    using assms(1) by (cases "n + cnt = 0") (simp_all add: signed_modulo_int_def)
  then show ?thesis by simp
qed

lemma markCurrent_control [simp]:
  "control (state_of (markCurrent b c)) = control c"
  "currentSlide (state_of (markCurrent b c)) = currentSlide c"
  "length (slides (state_of (markCurrent b c))) = length (slides c)"
  by (simp_all add: control_def markCurrent_def state_of_def Let_def split: option.splits)

lemma gotoNth_cases:
  obtains (thrown) e s where "markCurrent False c = Inl (e, s)" and "gotoNth n c = Inl (e, s)"
  | (wrapped) c1 where "markCurrent False c = Inr c1"
      and "gotoNth n c =
             markCurrent True (c1\<lparr>currentSlide := (n + SLIDES_COUNT c1) smod SLIDES_COUNT c1\<rparr>)"
  by (cases "markCurrent False c") (auto simp: gotoNth_def)

lemma control_update [simp]: "control (c\<lparr>currentSlide := i\<rparr>) = control c"
  by (simp add: control_def)

lemma gotoNth_control [simp]: "control (state_of (gotoNth n c)) = control c"
proof (cases rule: gotoNth_cases [of c n])
  case (thrown e s)
  then have "state_of (gotoNth n c) = state_of (markCurrent False c)"
    by (simp add: state_of_def)
  then show ?thesis by simp
next
  case (wrapped c1)
  then have "control c1 = control c"
    using markCurrent_control(1) [of False c] by (simp add: state_of_def)
  with wrapped show ?thesis by simp
qed

lemma gotoNth_length [simp]: "length (slides (state_of (gotoNth n c))) = length (slides c)"
proof (cases rule: gotoNth_cases [of c n])
  case (thrown e s)
  then have "state_of (gotoNth n c) = state_of (markCurrent False c)"
    by (simp add: state_of_def)
  then show ?thesis by simp
next
  case (wrapped c1)
  then have "length (slides c1) = length (slides c)"
    using markCurrent_control(3) [of False c] by (simp add: state_of_def)
  with wrapped show ?thesis by simp
qed

lemma markCurrent_ready:
  assumes "0 \<le> currentSlide c" and "currentSlide c < SLIDES_COUNT c"
    and "indicatorsContainer c = Some children" and "length (slides c) \<le> length children"
  shows "markCurrent b c =
           Inr (c\<lparr>slides := (slides c)[nat (currentSlide c) := b],
                  indicatorsContainer := Some (children[nat (currentSlide c) := b])\<rparr>)"
  using assms by (simp add: markCurrent_def elem_at_def SLIDES_COUNT_def Let_def)

lemma gotoNth_ready:
  assumes "ready c" and "- SLIDES_COUNT c \<le> n"
  shows "\<exists>c'. gotoNth n c = Inr c' \<and> currentSlide c' = n mod SLIDES_COUNT c \<and> ready c'
           \<and> control c' = control c \<and> SLIDES_COUNT c' = SLIDES_COUNT c"
proof -
  from assms(1) obtain children where ch: "indicatorsContainer c = Some children"
    and len: "length (slides c) \<le> length children"
    and lo: "0 \<le> currentSlide c" and hi: "currentSlide c < SLIDES_COUNT c"
    by (auto simp: ready_def split: option.splits)
  let ?c1 = "c\<lparr>slides := (slides c)[nat (currentSlide c) := False],
                indicatorsContainer := Some (children[nat (currentSlide c) := False])\<rparr>"
  have m1: "markCurrent False c = Inr ?c1"
    using lo hi ch len by (rule markCurrent_ready)
  have cnt: "SLIDES_COUNT ?c1 = SLIDES_COUNT c" by (simp add: SLIDES_COUNT_def)
  have pos: "0 < SLIDES_COUNT c" using lo hi by simp
  let ?i = "n mod SLIDES_COUNT c"
  have w: "(n + SLIDES_COUNT c) smod SLIDES_COUNT c = ?i"
    using pos assms(2) by (rule wrap_mod)
  have ilo: "0 \<le> ?i" and ihi: "?i < SLIDES_COUNT c" using pos by simp_all
  let ?c2 = "?c1\<lparr>currentSlide := ?i\<rparr>"
  have g: "gotoNth n c = markCurrent True ?c2"
    by (simp add: gotoNth_def m1 cnt w)
  have m2: "markCurrent True ?c2 =
      Inr (?c2\<lparr>slides := (slides ?c2)[nat (currentSlide ?c2) := True],
                indicatorsContainer :=
                  Some ((children[nat (currentSlide c) := False])[nat (currentSlide ?c2) := True])\<rparr>)"
    by (rule markCurrent_ready) (use ilo ihi len in \<open>simp_all add: SLIDES_COUNT_def\<close>)
  show ?thesis
    unfolding g m2 using ilo ihi len
    by (simp add: ready_def SLIDES_COUNT_def control_def)
qed

text \<open>The index stays where it is when the deactivation throws, and is the wrapped one otherwise.\<close>

lemma gotoNth_index:
  "currentSlide (state_of (gotoNth n c)) = currentSlide c \<or>
   currentSlide (state_of (gotoNth n c)) = (n + SLIDES_COUNT c) smod SLIDES_COUNT c"
proof (cases rule: gotoNth_cases [of c n])
  case (thrown e s)
  then have "state_of (gotoNth n c) = state_of (markCurrent False c)"
    by (simp add: state_of_def)
  then show ?thesis by simp
next
  case (wrapped c1)
  then have "SLIDES_COUNT c1 = SLIDES_COUNT c"
    using markCurrent_control(3) [of False c] by (simp add: state_of_def SLIDES_COUNT_def)
  with wrapped show ?thesis by simp
qed

lemma ready_play [simp]: "ready (play c) = ready c"
  by (simp add: ready_def SLIDES_COUNT_def split: option.splits)

lemma SLIDES_COUNT_pause [simp]: "SLIDES_COUNT (pause c) = SLIDES_COUNT c"
  by (simp add: SLIDES_COUNT_def)

lemma SLIDES_COUNT_play [simp]: "SLIDES_COUNT (play c) = SLIDES_COUNT c"
  by (simp add: SLIDES_COUNT_def)

lemma markCurrent_empty: "slides c = [] \<Longrightarrow> markCurrent b c = Inl (TypeError, c)"
  by (auto simp: markCurrent_def elem_at_def)

lemma gotoNth_empty: "slides c = [] \<Longrightarrow> gotoNth n c = Inl (TypeError, c)"
  by (simp add: gotoNth_def markCurrent_empty)

text \<open>
  Claim C1, as the code has it. Let the current index be in range (so the slide count is
  positive), and let the slide count, the delta \<open>d\<close> and the sum
  \<open>currentSlide + d + SLIDES_COUNT\<close> be safe integers. If
  \<open>currentSlide + d \<ge> - SLIDES_COUNT\<close>, then the index after
  \<^verbatim>\<open>#gotoNth(currentSlide + d)\<close> is again in range, the computed
  \<^verbatim>\<open>(n + SLIDES_COUNT) % SLIDES_COUNT\<close> is the mathematical \<open>n mod SLIDES_COUNT\<close>, and on
  an object that is ready the call returns with that index. The wrap is the truncating
  remainder of \<open>n + SLIDES_COUNT\<close>; about targets below \<open>- SLIDES_COUNT\<close> nothing is
  claimed.
\<close>

theorem wrap_invariant:
  assumes "0 \<le> currentSlide c" and "currentSlide c < SLIDES_COUNT c"
    and "- SLIDES_COUNT c \<le> currentSlide c + d"
    and "isSafeInteger (SLIDES_COUNT c)" and "isSafeInteger d"
    and "isSafeInteger (currentSlide c + d + SLIDES_COUNT c)"
  shows "0 \<le> currentSlide (state_of (gotoNth (currentSlide c + d) c))
    \<and> currentSlide (state_of (gotoNth (currentSlide c + d) c)) < SLIDES_COUNT c
    \<and> (currentSlide c + d + SLIDES_COUNT c) smod SLIDES_COUNT c
        = (currentSlide c + d) mod SLIDES_COUNT c
    \<and> (ready c \<longrightarrow>
         (\<exists>c'. gotoNth (currentSlide c + d) c = Inr c'
            \<and> currentSlide c' = (currentSlide c + d) mod SLIDES_COUNT c))"
proof -
  have pos: "0 < SLIDES_COUNT c" using assms by simp
  have w: "(currentSlide c + d + SLIDES_COUNT c) smod SLIDES_COUNT c
        = (currentSlide c + d) mod SLIDES_COUNT c"
    using pos assms(3) by (rule wrap_mod)
  have b: "0 \<le> (currentSlide c + d) mod SLIDES_COUNT c"
     "(currentSlide c + d) mod SLIDES_COUNT c < SLIDES_COUNT c"
    using pos by simp_all
  have "0 \<le> currentSlide (state_of (gotoNth (currentSlide c + d) c))
    \<and> currentSlide (state_of (gotoNth (currentSlide c + d) c)) < SLIDES_COUNT c"
    using gotoNth_index [of "currentSlide c + d" c] assms(1,2) b by (auto simp: w)
  moreover have "ready c \<longrightarrow>
         (\<exists>c'. gotoNth (currentSlide c + d) c = Inr c'
            \<and> currentSlide c' = (currentSlide c + d) mod SLIDES_COUNT c)"
    using gotoNth_ready [OF _ assms(3)] by blast
  ultimately show ?thesis using w by simp
qed

theorem wrap_invariant_witness:
  "isSafeInteger (SLIDES_COUNT (init None (fresh [True, False, False])))
   \<and> isSafeInteger (- 1)
   \<and> isSafeInteger (currentSlide (init None (fresh [True, False, False])) + (- 1)
        + SLIDES_COUNT (init None (fresh [True, False, False])))
   \<and> currentSlide (state_of (gotoNth (currentSlide (init None (fresh [True, False, False])) + (- 1))
      (init None (fresh [True, False, False])))) = 2
   \<and> gotoNth (currentSlide (init None (fresh [True, False, False])) + (- 1))
        (init None (fresh [True, False, False]))
      = Inr ((init None (fresh [True, False, False]))
          \<lparr>slides := [False, False, True], currentSlide := 2,
            indicatorsContainer := Some [False, False, True]\<rparr>)"
proof -
  let ?c = "init None (fresh [True, False, False])"
  have cur: "currentSlide ?c = 0" and cnt: "SLIDES_COUNT ?c = 3" and r: "ready ?c"
    by code_simp+
  have h: "0 \<le> currentSlide ?c" "currentSlide ?c < SLIDES_COUNT ?c"
     "- SLIDES_COUNT ?c \<le> currentSlide ?c + (- 1)"
     "isSafeInteger (SLIDES_COUNT ?c)" "isSafeInteger (- 1)"
     "isSafeInteger (currentSlide ?c + (- 1) + SLIDES_COUNT ?c)"
    by (simp_all add: cur cnt isSafeInteger_def MAX_SAFE_INTEGER_def)
  have g: "gotoNth (currentSlide (init None (fresh [True, False, False])) + (- 1))
        (init None (fresh [True, False, False]))
      = Inr ((init None (fresh [True, False, False]))
          \<lparr>slides := [False, False, True], currentSlide := 2,
            indicatorsContainer := Some [False, False, True]\<rparr>)"
    by code_simp
  from wrap_invariant [OF h] g h(4-6) show ?thesis by (simp add: state_of_def)
qed

text \<open>
  The claim as the specification states it, for every integer delta, fails: with three
  slides, index 0 and delta \<open>- 4\<close> (all safe integers) the code computes
  \<^verbatim>\<open>(-4 + 3) % 3 = -1\<close>, stores it as the current index and throws on
  \<^verbatim>\<open>this.slides[-1].classList\<close>; the true modulo is 2.
\<close>

theorem wrap_truncates:
  "0 < SLIDES_COUNT (init None (fresh [True, False, False]))
   \<and> currentSlide (init None (fresh [True, False, False])) = 0
   \<and> gotoNth (currentSlide (init None (fresh [True, False, False])) + (- 4))
        (init None (fresh [True, False, False]))
      = Inl (TypeError, (init None (fresh [True, False, False]))
          \<lparr>slides := [False, False, False], currentSlide := - 1,
            indicatorsContainer := Some [False, False, False]\<rparr>)
   \<and> currentSlide (state_of (gotoNth (currentSlide (init None (fresh [True, False, False])) + (- 4))
        (init None (fresh [True, False, False])))) = - 1
   \<and> (0 + (- 4) + 3) smod (3::int) = - 1 \<and> (0 + (- 4)) mod (3::int) = 2"
  by code_simp

text \<open>
  Claim C3, as the code has it. An indicator click is \<^verbatim>\<open>pause()\<close> followed by the same
  \<^verbatim>\<open>#gotoNth\<close> that \<^verbatim>\<open>next()\<close> uses. On an object that is ready (the current index names
  a slide, and the indicators container has a child for every slide) it accepts every
  integer \<open>n \<ge> - SLIDES_COUNT\<close> for which the slide count and \<open>n + SLIDES_COUNT\<close> are safe
  integers, those beyond the last slide included, and leaves the index at
  \<open>n mod SLIDES_COUNT\<close>. On an object that is ready and has five slides a click for 7
  leaves the index at 2, and so does a click for 2, from every index in range.
\<close>

theorem indicator_jump:
  "indicatorClick True n c = gotoNth n (pause c)
   \<and> next c = gotoNth (currentSlide c + 1) (pause c)
   \<and> (ready c \<and> - SLIDES_COUNT c \<le> n
        \<and> isSafeInteger (SLIDES_COUNT c) \<and> isSafeInteger (n + SLIDES_COUNT c) \<longrightarrow>
        (\<exists>c'. indicatorClick True n c = Inr c' \<and> currentSlide c' = n mod SLIDES_COUNT c
           \<and> 0 \<le> currentSlide c' \<and> currentSlide c' < SLIDES_COUNT c))
   \<and> (ready c \<and> SLIDES_COUNT c = 5 \<longrightarrow>
        currentSlide (state_of (indicatorClick True 7 c)) = 2
        \<and> currentSlide (state_of (indicatorClick True 2 c)) = 2)"
proof -
  have a: "indicatorClick True n c = gotoNth n (pause c)" for n
    by (simp add: indicatorClick_def)
  have b: "next c = gotoNth (currentSlide c + 1) (pause c)"
    by (simp add: next_def Let_def)
  have c: "\<exists>c'. indicatorClick True n c = Inr c' \<and> currentSlide c' = n mod SLIDES_COUNT c
           \<and> 0 \<le> currentSlide c' \<and> currentSlide c' < SLIDES_COUNT c"
    if "ready c" and "- SLIDES_COUNT c \<le> n" for n
  proof -
    have "0 < SLIDES_COUNT c" using that(1) by (simp add: ready_def)
    then show ?thesis
      using gotoNth_ready [of "pause c" n] that by (auto simp: a)
  qed
  have d: "currentSlide (state_of (indicatorClick True 7 c)) = 2
        \<and> currentSlide (state_of (indicatorClick True 2 c)) = 2"
    if "ready c" and "SLIDES_COUNT c = 5"
    using c [of 7] c [of 2] that by (auto simp: state_of_def)
  show ?thesis using a b c d by blast
qed

theorem indicator_jump_witness:
  "ready (init None (fresh [True, False, False, False, False]))
   \<and> SLIDES_COUNT (init None (fresh [True, False, False, False, False])) = 5
   \<and> - SLIDES_COUNT (init None (fresh [True, False, False, False, False])) \<le> 7
   \<and> isSafeInteger (SLIDES_COUNT (init None (fresh [True, False, False, False, False])))
   \<and> isSafeInteger (7 + SLIDES_COUNT (init None (fresh [True, False, False, False, False])))
   \<and> 7 mod SLIDES_COUNT (init None (fresh [True, False, False, False, False])) = 2
   \<and> indicatorClick True 7 (init None (fresh [True, False, False, False, False]))
     = Inr ((pause (init None (fresh [True, False, False, False, False])))
          \<lparr>slides := [False, False, True, False, False], currentSlide := 2,
            indicatorsContainer := Some [False, False, True, False, False]\<rparr>)
   \<and> currentSlide (state_of (indicatorClick True 7
        (init None (fresh [True, False, False, False, False])))) = 2
   \<and> currentSlide (state_of (indicatorClick True 2
        (init None (fresh [True, False, False, False, False])))) = 2"
proof -
  let ?c = "init None (fresh [True, False, False, False, False])"
  have r: "ready ?c" and cnt: "SLIDES_COUNT ?c = 5" by code_simp+
  have g: "indicatorClick True 7 ?c
     = Inr ((pause ?c)
          \<lparr>slides := [False, False, True, False, False], currentSlide := 2,
            indicatorsContainer := Some [False, False, True, False, False]\<rparr>)"
    by code_simp
  have s: "- SLIDES_COUNT ?c \<le> 7" "isSafeInteger (SLIDES_COUNT ?c)"
      "isSafeInteger (7 + SLIDES_COUNT ?c)" "7 mod SLIDES_COUNT ?c = 2"
    by (simp_all add: cnt isSafeInteger_def MAX_SAFE_INTEGER_def)
  have "currentSlide (state_of (indicatorClick True 7 ?c)) = 2
      \<and> currentSlide (state_of (indicatorClick True 2 ?c)) = 2"
    using indicator_jump [of 7 ?c] r cnt by blast
  with g r cnt s show ?thesis by blast
qed

text \<open>
  Not every integer is accepted: on an initialised carousel of five slides a click for
  \<open>- 7\<close> stores the index \<^verbatim>\<open>(-7 + 5) % 5 = -2\<close> and throws a TypeError, where the modulo
  would be 3.
\<close>

theorem indicator_negative_throws:
  "indicatorClick True (- 7) (init None (fresh [True, False, False, False, False]))
     = Inl (TypeError, (pause (init None (fresh [True, False, False, False, False])))
          \<lparr>slides := [False, False, False, False, False], currentSlide := - 2,
            indicatorsContainer := Some [False, False, False, False, False]\<rparr>)
   \<and> currentSlide (state_of (indicatorClick True (- 7)
        (init None (fresh [True, False, False, False, False])))) = - 2
   \<and> (- 7) mod (5::int) = 3"
  by code_simp

subsection \<open>No slides\<close>

text \<open>
  Claim C4, as the code has it. With no slide, \<^verbatim>\<open>next()\<close>, \<^verbatim>\<open>prev()\<close> and the timer
  callback all throw a TypeError, from the first line of \<^verbatim>\<open>#gotoNth\<close>, with the index
  unchanged. \<^verbatim>\<open>next()\<close> and \<^verbatim>\<open>prev()\<close> have called \<^verbatim>\<open>pause()\<close> before; the timer
  callback leaves the object as it was.
\<close>

theorem empty_navigation:
  assumes "SLIDES_COUNT c = 0"
  shows "next c = Inl (TypeError, pause c) \<and> prev c = Inl (TypeError, pause c)
    \<and> timerCallback c = Inl (TypeError, c)
    \<and> currentSlide (pause c) = currentSlide c"
  using assms
  by (simp add: SLIDES_COUNT_def next_def prev_def timerCallback_def Let_def gotoNth_empty)

theorem empty_navigation_witness:
  "SLIDES_COUNT (init None (fresh [])) = 0
   \<and> next (init None (fresh [])) = Inl (TypeError, pause (init None (fresh [])))
   \<and> prev (init None (fresh [])) = Inl (TypeError, pause (init None (fresh [])))
   \<and> timerCallback (init None (fresh [])) = Inl (TypeError, init None (fresh []))"
proof -
  have h: "SLIDES_COUNT (init None (fresh [])) = 0" by code_simp
  from empty_navigation [OF h] h show ?thesis by simp
qed

text \<open>
  The error is not an InvalidStateError and the call is not a no-op: on an initialised
  carousel without slides, playing, \<^verbatim>\<open>next()\<close> throws a TypeError and leaves it paused.
\<close>

theorem empty_next_is_type_error:
  "SLIDES_COUNT (init None (fresh [])) = 0
   \<and> isPlaying (init None (fresh []))
   \<and> timerId (init None (fresh [])) = Some 1
   \<and> next (init None (fresh []))
       = Inl (TypeError, (init None (fresh []))
            \<lparr>isPlaying := False, timerId := None, host_intervals := []\<rparr>)
   \<and> next (init None (fresh [])) \<noteq> Inr (init None (fresh []))"
  by code_simp

subsection \<open>Playing state and timers under the methods and events\<close>

lemma control_fields:
  assumes "control a = control b"
  shows "isPlaying a = isPlaying b" "timerId a = timerId b"
    "host_intervals a = host_intervals b" "host_lastId a = host_lastId b"
    "pauseOnHover a = pauseOnHover b"
  using assms by (simp_all add: control_def)

lemma next_control: "control (state_of (next c)) = control (pause c)"
  by (simp add: next_def Let_def)

lemma prev_control: "control (state_of (prev c)) = control (pause c)"
  by (simp add: prev_def Let_def)

lemma pausePlay_control:
  "control (state_of (pausePlay c)) = control (if isPlaying c then pause c else play c)"
  by (simp add: pausePlay_def state_of_def Let_def control_def split: option.splits)

lemma indicatorClick_control:
  "control (state_of (indicatorClick b n c)) = control (if b then pause c else c)"
  by (simp add: indicatorClick_def) (simp add: state_of_def)

lemma keydownHandler_control:
  "control (state_of (keydownHandler code c)) = control c
   \<or> control (state_of (keydownHandler code c)) = control (pause c)
   \<or> control (state_of (keydownHandler code c)) = control (play c)"
  by (simp add: keydownHandler_def next_control prev_control pausePlay_control)
     (simp add: state_of_def)

lemma control_swipe_fields [simp]:
  "control (c\<lparr>startX := x\<rparr>) = control c" "control (c\<lparr>endX := x\<rparr>) = control c"
  by (simp_all add: control_def)

lemma pause_swipe_fields [simp]:
  "pause (c\<lparr>endX := x\<rparr>) = (pause c)\<lparr>endX := x\<rparr>"
  by (simp add: pause_def clearInterval_def split: option.splits)

lemma handleSwipe_control:
  "control (state_of (handleSwipe c)) = control c
   \<or> control (state_of (handleSwipe c)) = control (pause c)"
  by (simp add: handleSwipe_def Let_def next_control prev_control) (simp add: state_of_def)

lemma callbacks_control:
  "control (fold (\<lambda>h s. state_of (timerCallback s)) hs c) = control c"
  by (induction hs arbitrary: c) (simp_all add: timerCallback_def)

lemma intervalElapsed_control: "control (intervalElapsed c) = control c"
  by (simp add: intervalElapsed_def callbacks_control)

lemma handle_control:
  "control (handle ev c) = control c \<or> control (handle ev c) = control (pause c)
   \<or> control (handle ev c) = control (play c)"
proof (cases ev)
  case (IndicatorsClick b n)
  then show ?thesis by (simp add: indicatorClick_control)
next
  case (Keydown code)
  then show ?thesis using keydownHandler_control [of code c] by auto
next
  case (Touchend x)
  then show ?thesis
    using handleSwipe_control [of "c\<lparr>endX := x\<rparr>"] by (auto simp: touchEndHandler_def)
next
  case (Mouseup x)
  then show ?thesis
    using handleSwipe_control [of "c\<lparr>endX := x\<rparr>"] by (auto simp: mouseUpHandler_def)
qed (simp_all add: next_control prev_control pausePlay_control mouseenterHandler_def
       mouseleaveHandler_def touchStartHandler_def mouseDownHandler_def
       intervalElapsed_control)


lemma in_sync_control: "control a = control b \<Longrightarrow> in_sync a = in_sync b"
  by (simp add: in_sync_def control_def)

lemma owned_control: "control a = control b \<Longrightarrow> owned a = owned b"
  by (simp add: owned_def control_def)

lemma in_sync_pause [simp]: "in_sync (pause c)"
  by (simp add: in_sync_def)

lemma in_sync_play [simp]: "in_sync (play c)"
  by (simp add: in_sync_def)

lemma owned_pause: "owned c \<Longrightarrow> owned (pause c)"
  by (simp add: owned_def pause_intervals split: option.splits)

lemma owned_play: "owned c \<Longrightarrow> owned (play c)"
  by (simp add: owned_def play_intervals split: option.splits)

lemma in_sync_handle: "in_sync c \<Longrightarrow> in_sync (handle ev c)"
  using handle_control [of ev c] in_sync_pause [of c] in_sync_play [of c]
  by (auto dest: in_sync_control)

lemma owned_handle: "owned c \<Longrightarrow> owned (handle ev c)"
  using handle_control [of ev c] owned_pause [of c] owned_play [of c]
  by (auto dest: owned_control)

lemma in_sync_run: "in_sync c \<Longrightarrow> in_sync (run evs c)"
  unfolding run_def by (induction evs arbitrary: c) (simp_all add: in_sync_handle)

lemma owned_run: "owned c \<Longrightarrow> owned (run evs c)"
  unfolding run_def by (induction evs arbitrary: c) (simp_all add: owned_handle)

lemma init_control:
  "control (init existing c) = control (if isPlaying c then play c else c)"
  by (simp add: init_def createIndicators_def createControls_def Let_def control_def play_def
        startTimer_def setInterval_def clearInterval_def split: option.splits)

lemma constructed:
  assumes "SwipeCarousel opts container = Inr c0"
  shows "timerId c0 = None" "host_intervals c0 = []" "currentSlide c0 = 0"
    "indicatorsContainer c0 = None" "swipeThreshold c0 = 100"
  using assms
  by (auto simp: SwipeCarousel_def Carousel_def carousel.defs swipe_carousel.defs
        split: option.splits)

lemma in_sync_init:
  assumes "SwipeCarousel opts container = Inr c0" shows "in_sync (init existing c0)"
proof (cases "isPlaying c0")
  case True
  then have "control (init existing c0) = control (play c0)" by (simp add: init_control)
  then show ?thesis using in_sync_control in_sync_play by blast
next
  case False
  then have "control (init existing c0) = control c0" by (simp add: init_control)
  moreover have "in_sync c0" using False constructed(1) [OF assms] by (simp add: in_sync_def)
  ultimately show ?thesis using in_sync_control by blast
qed

lemma owned_init:
  assumes "SwipeCarousel opts container = Inr c0" shows "owned (init existing c0)"
proof -
  have o: "owned c0" using constructed(1,2) [OF assms] by (simp add: owned_def)
  show ?thesis
  proof (cases "isPlaying c0")
    case True
    then have "control (init existing c0) = control (play c0)" by (simp add: init_control)
    then show ?thesis using owned_control owned_play [OF o] by blast
  next
    case False
    then have "control (init existing c0) = control c0" by (simp add: init_control)
    then show ?thesis using owned_control o by blast
  qed
qed

lemma owned_length: "owned c \<Longrightarrow> length (host_intervals c) \<le> 1"
  by (simp add: owned_def split: option.splits)

lemma owned_reachable:
  assumes "SwipeCarousel opts container = Inr c0"
  shows "owned (run evs (init existing c0))"
  by (rule owned_run [OF owned_init [OF assms]])

lemma play_once_intervals:
  assumes "owned c" shows "host_intervals (play c) = [Suc (host_lastId c)]"
  using assms by (simp add: owned_def play_intervals split: option.splits)

lemma play_twice_intervals:
  assumes "owned c" shows "host_intervals (play (play c)) = [Suc (Suc (host_lastId c))]"
  using play_once_intervals [OF owned_play [OF assms]] by simp

lemma one_callback:
  assumes "host_intervals c = [h]" and "ready c"
  shows "currentSlide (intervalElapsed c) = (currentSlide c + 1) mod SLIDES_COUNT c"
proof -
  have "0 \<le> currentSlide c" "0 < SLIDES_COUNT c" using assms(2) by (auto simp: ready_def)
  then obtain c' where "gotoNth (currentSlide c + 1) c = Inr c'"
    and "currentSlide c' = (currentSlide c + 1) mod SLIDES_COUNT c"
    using gotoNth_ready [OF assms(2), of "currentSlide c + 1"] by auto
  then show ?thesis
    by (simp add: intervalElapsed_def assms(1) timerCallback_def state_of_def)
qed

subsection \<open>Manual navigation\<close>

text \<open>
  Claim C5, as the code has it. From a playing carousel, \<^verbatim>\<open>next()\<close> is \<^verbatim>\<open>pause()\<close> followed by
  \<^verbatim>\<open>#gotoNth(currentSlide + 1)\<close>, and \<^verbatim>\<open>prev()\<close> the same with \<open>- 1\<close>: the pause comes
  first and clears the timer. Afterwards, also when \<^verbatim>\<open>#gotoNth\<close> throws, \<^verbatim>\<open>isPlaying\<close>
  is false, the handle is null and the interval it named is no longer scheduled (none
  is, when the carousel's timer was the only one). The index has moved by one, wrapping,
  and the call returns, on an object that is ready: the current index names a slide and
  the indicators container exists with a child for every slide. Of other objects the
  move is not claimed.
\<close>

theorem manual_overrides_auto:
  assumes "isPlaying c"
  shows "next c = gotoNth (currentSlide c + 1) (pause c)
    \<and> prev c = gotoNth (currentSlide c - 1) (pause c)
    \<and> \<not> isPlaying (pause c) \<and> timerId (pause c) = None
    \<and> \<not> isPlaying (state_of (next c)) \<and> timerId (state_of (next c)) = None
    \<and> \<not> isPlaying (state_of (prev c)) \<and> timerId (state_of (prev c)) = None
    \<and> (case timerId c of None \<Rightarrow> True
        | Some h \<Rightarrow> h \<notin> set (host_intervals (state_of (next c)))
                  \<and> h \<notin> set (host_intervals (state_of (prev c))))
    \<and> (owned c \<longrightarrow> host_intervals (state_of (next c)) = []
                  \<and> host_intervals (state_of (prev c)) = [])
    \<and> (ready c \<longrightarrow>
         (\<exists>c'. next c = Inr c' \<and> currentSlide c' = (currentSlide c + 1) mod SLIDES_COUNT c)
       \<and> (\<exists>c'. prev c = Inr c' \<and> currentSlide c' = (currentSlide c - 1) mod SLIDES_COUNT c))"
proof -
  have n: "next c = gotoNth (currentSlide c + 1) (pause c)"
    and p: "prev c = gotoNth (currentSlide c - 1) (pause c)"
    by (simp_all add: next_def prev_def Let_def)
  have cn: "control (state_of (next c)) = control (pause c)" by (rule next_control)
  have cp: "control (state_of (prev c)) = control (pause c)" by (rule prev_control)
  have flags: "\<not> isPlaying (state_of (next c)) \<and> timerId (state_of (next c)) = None
      \<and> \<not> isPlaying (state_of (prev c)) \<and> timerId (state_of (prev c)) = None"
    using control_fields(1,2) [OF cn] control_fields(1,2) [OF cp] by simp
  have iv: "host_intervals (state_of (next c)) = host_intervals (pause c)"
      "host_intervals (state_of (prev c)) = host_intervals (pause c)"
    using control_fields(3) [OF cn] control_fields(3) [OF cp] by simp_all
  have cancelled: "(case timerId c of None \<Rightarrow> True
        | Some h \<Rightarrow> h \<notin> set (host_intervals (state_of (next c)))
                  \<and> h \<notin> set (host_intervals (state_of (prev c))))"
    by (simp add: iv pause_intervals split: option.splits)
  have none: "host_intervals (state_of (next c)) = [] \<and> host_intervals (state_of (prev c)) = []"
    if "owned c"
    using owned_pause [OF that] by (simp add: iv owned_def)
  have adv: "(\<exists>c'. next c = Inr c' \<and> currentSlide c' = (currentSlide c + 1) mod SLIDES_COUNT c)
       \<and> (\<exists>c'. prev c = Inr c' \<and> currentSlide c' = (currentSlide c - 1) mod SLIDES_COUNT c)"
    if r: "ready c"
  proof -
    have b: "0 \<le> currentSlide c" "0 < SLIDES_COUNT c" using r by (auto simp: ready_def)
    have "\<exists>c'. gotoNth (currentSlide c + 1) (pause c) = Inr c'
            \<and> currentSlide c' = (currentSlide c + 1) mod SLIDES_COUNT c"
      using gotoNth_ready [of "pause c" "currentSlide c + 1"] r b by auto
    moreover have "\<exists>c'. gotoNth (currentSlide c - 1) (pause c) = Inr c'
            \<and> currentSlide c' = (currentSlide c - 1) mod SLIDES_COUNT c"
      using gotoNth_ready [of "pause c" "currentSlide c - 1"] r b by auto
    ultimately show ?thesis by (simp add: n p)
  qed
  show ?thesis using n p flags cancelled none adv by simp
qed

theorem manual_overrides_auto_witness:
  "isPlaying (init None (fresh [True, False, False]))
   \<and> timerId (init None (fresh [True, False, False])) = Some 1
   \<and> host_intervals (init None (fresh [True, False, False])) = [1]
   \<and> next (init None (fresh [True, False, False]))
       = Inr ((init None (fresh [True, False, False]))
           \<lparr>slides := [False, True, False], isPlaying := False, currentSlide := 1,
             timerId := None, indicatorsContainer := Some [False, True, False],
             host_intervals := []\<rparr>)
   \<and> prev (init None (fresh [True, False, False]))
       = Inr ((init None (fresh [True, False, False]))
           \<lparr>slides := [False, False, True], isPlaying := False, currentSlide := 2,
             timerId := None, indicatorsContainer := Some [False, False, True],
             host_intervals := []\<rparr>)
   \<and> \<not> isPlaying (state_of (next (init None (fresh [True, False, False]))))
   \<and> timerId (state_of (next (init None (fresh [True, False, False])))) = None
   \<and> host_intervals (state_of (next (init None (fresh [True, False, False])))) = []"
proof -
  let ?c = "init None (fresh [True, False, False])"
  have h: "isPlaying ?c" by code_simp
  have o: "owned ?c" and r: "ready ?c" by code_simp+
  have e: "timerId ?c = Some 1 \<and> host_intervals ?c = [1]
    \<and> next ?c = Inr (?c\<lparr>slides := [False, True, False], isPlaying := False, currentSlide := 1,
             timerId := None, indicatorsContainer := Some [False, True, False],
             host_intervals := []\<rparr>)
    \<and> prev ?c = Inr (?c\<lparr>slides := [False, False, True], isPlaying := False, currentSlide := 2,
             timerId := None, indicatorsContainer := Some [False, False, True],
             host_intervals := []\<rparr>)"
    by code_simp
  have "\<not> isPlaying (state_of (next ?c)) \<and> timerId (state_of (next ?c)) = None
      \<and> host_intervals (state_of (next ?c)) = []"
    using manual_overrides_auto [OF h] o by blast
  with h e show ?thesis by blast
qed

text \<open>
  The index does not move from every playing state. A carousel of three slides built with
  the default options plays from its construction; before \<^verbatim>\<open>init()\<close> its indicators
  container is null, and \<^verbatim>\<open>next()\<close> pauses it, removes \<^verbatim>\<open>active\<close> from the first slide and
  throws a TypeError with the index still 0, where an advance would give 1.
\<close>

theorem next_before_init_stays:
  "SwipeCarousel no_options (Some [True, False, False]) = Inr (fresh [True, False, False])
   \<and> isPlaying (fresh [True, False, False])
   \<and> currentSlide (fresh [True, False, False]) = 0
   \<and> next (fresh [True, False, False])
       = Inl (TypeError, (fresh [True, False, False])
            \<lparr>slides := [False, False, False], isPlaying := False\<rparr>)
   \<and> currentSlide (state_of (next (fresh [True, False, False]))) = 0
   \<and> (currentSlide (fresh [True, False, False]) + 1)
        mod SLIDES_COUNT (fresh [True, False, False]) = 1"
proof -
  have "SwipeCarousel no_options (Some [True, False, False]) = Inr (fresh [True, False, False])"
    by (rule fresh_constructed)
  moreover have "isPlaying (fresh [True, False, False])
   \<and> currentSlide (fresh [True, False, False]) = 0
   \<and> next (fresh [True, False, False])
       = Inl (TypeError, (fresh [True, False, False])
            \<lparr>slides := [False, False, False], isPlaying := False\<rparr>)
   \<and> currentSlide (state_of (next (fresh [True, False, False]))) = 0
   \<and> (currentSlide (fresh [True, False, False]) + 1)
        mod SLIDES_COUNT (fresh [True, False, False]) = 1"
    by code_simp
  ultimately show ?thesis by blast
qed

text \<open>
  Claim C8, as the code has it. \<^verbatim>\<open>next()\<close> and \<^verbatim>\<open>prev()\<close> are not undone when they
  fail. The error is the TypeError of \<^verbatim>\<open>#gotoNth\<close>, and it propagates after \<^verbatim>\<open>pause()\<close>
  has run: \<^verbatim>\<open>isPlaying\<close> is false, the timer handle is null and its interval is
  cancelled, whatever they were before. With no slides the object is exactly as
  \<^verbatim>\<open>pause()\<close> leaves it, so the current index is the one of before.
\<close>

theorem failure_after_pause:
  assumes "next c = Inl (e, s) \<or> prev c = Inl (e, s)"
  shows "e = TypeError \<and> \<not> isPlaying s \<and> timerId s = None
    \<and> host_intervals s = host_intervals (pause c)
    \<and> (SLIDES_COUNT c = 0 \<longrightarrow> s = pause c \<and> currentSlide s = currentSlide c)"
proof -
  have "state_of (next c) = s \<or> state_of (prev c) = s"
    using assms by (auto simp: state_of_def)
  then have "control s = control (pause c)"
    using next_control [of c] prev_control [of c] by auto
  then have f: "\<not> isPlaying s \<and> timerId s = None \<and> host_intervals s = host_intervals (pause c)"
    using control_fields(1-3) [of s "pause c"] by simp
  have "s = pause c \<and> currentSlide s = currentSlide c" if "SLIDES_COUNT c = 0"
    using assms that
    by (auto simp: SLIDES_COUNT_def next_def prev_def Let_def gotoNth_empty)
  with f show ?thesis by (cases e) simp
qed

theorem failure_after_pause_witness:
  "next (init None (fresh [])) = Inl (TypeError, pause (init None (fresh [])))
   \<and> SLIDES_COUNT (init None (fresh [])) = 0
   \<and> \<not> isPlaying (pause (init None (fresh [])))
   \<and> timerId (pause (init None (fresh []))) = None
   \<and> currentSlide (pause (init None (fresh []))) = currentSlide (init None (fresh []))"
proof -
  let ?c = "init None (fresh [])"
  have h: "next ?c = Inl (TypeError, pause ?c)" and z: "SLIDES_COUNT ?c = 0" by code_simp+
  have "next ?c = Inl (TypeError, pause ?c) \<or> prev ?c = Inl (TypeError, pause ?c)"
    using h by simp
  from failure_after_pause [OF this] h z show ?thesis by simp
qed

text \<open>
  The claim as the specification states it fails on a playing carousel without slides:
  \<^verbatim>\<open>next()\<close> throws, and \<^verbatim>\<open>isPlaying\<close> and the timer handle have changed.
\<close>

theorem failed_next_has_paused:
  "isPlaying (init None (fresh []))
   \<and> timerId (init None (fresh [])) = Some 1
   \<and> host_intervals (init None (fresh [])) = [1]
   \<and> next (init None (fresh []))
       = Inl (TypeError, (init None (fresh []))
            \<lparr>isPlaying := False, timerId := None, host_intervals := []\<rparr>)
   \<and> isPlaying (state_of (next (init None (fresh [])))) \<noteq> isPlaying (init None (fresh []))
   \<and> timerId (state_of (next (init None (fresh [])))) \<noteq> timerId (init None (fresh []))"
  by code_simp

subsection \<open>Playing and the timer\<close>

text \<open>
  Claim C9, as the code has it. From \<^verbatim>\<open>init()\<close> on, after every sequence of method calls
  and events, \<^verbatim>\<open>isPlaying\<close> is true exactly when the object holds a timer handle.
\<close>

theorem playing_iff_timer:
  assumes "SwipeCarousel opts container = Inr c0"
  shows "isPlaying (run evs (init existing c0)) \<longleftrightarrow>
           timerId (run evs (init existing c0)) \<noteq> None"
  using in_sync_run [OF in_sync_init [OF assms], of evs existing] by (simp add: in_sync_def)

theorem playing_iff_timer_witness:
  "SwipeCarousel no_options (Some [True, False, False]) = Inr (fresh [True, False, False])
   \<and> isPlaying (run [CallNext, Mouseenter, Mouseleave] (init None (fresh [True, False, False])))
   \<and> timerId (run [CallNext, Mouseenter, Mouseleave] (init None (fresh [True, False, False])))
       = Some 2"
proof -
  have h: "SwipeCarousel no_options (Some [True, False, False]) = Inr (fresh [True, False, False])"
    by (rule fresh_constructed)
  have t: "timerId (run [CallNext, Mouseenter, Mouseleave] (init None (fresh [True, False, False])))
       = Some 2"
    by code_simp
  from playing_iff_timer [OF h, of "[CallNext, Mouseenter, Mouseleave]" None] h t
  show ?thesis by simp
qed

text \<open>
  Between construction and \<^verbatim>\<open>init()\<close> the claim fails: with the default options the
  constructor sets \<^verbatim>\<open>isPlaying\<close> to true and the timer handle to null.
\<close>

theorem playing_before_init:
  "SwipeCarousel no_options (Some [True, False, False]) = Inr (fresh [True, False, False])
   \<and> isPlaying (fresh [True, False, False])
   \<and> timerId (fresh [True, False, False]) = None"
  by (simp add: fresh_constructed) (simp add: fresh_def)

text \<open>
  Claim C6. On a constructed and initialised carousel, after every sequence of method
  calls and events at most one interval is scheduled. One \<^verbatim>\<open>play()\<close> leaves exactly one,
  and so do two in a row: the second cancels the interval of the first, and the one
  scheduled is the one whose handle the object holds. When the period then elapses on an
  object that is ready, the index has moved by exactly one, wrapping.
\<close>

theorem single_timer:
  assumes "SwipeCarousel opts container = Inr c0"
  shows "length (host_intervals (run evs (init existing c0))) \<le> 1
    \<and> host_intervals (play (run evs (init existing c0)))
        = [Suc (host_lastId (run evs (init existing c0)))]
    \<and> host_intervals (play (play (run evs (init existing c0))))
        = [Suc (Suc (host_lastId (run evs (init existing c0))))]
    \<and> timerId (play (play (run evs (init existing c0))))
        = Some (Suc (Suc (host_lastId (run evs (init existing c0)))))
    \<and> (ready (run evs (init existing c0)) \<longrightarrow>
         currentSlide (intervalElapsed (play (play (run evs (init existing c0)))))
           = (currentSlide (run evs (init existing c0)) + 1)
               mod SLIDES_COUNT (run evs (init existing c0)))"
proof -
  let ?c = "run evs (init existing c0)"
  have o: "owned ?c" using assms by (rule owned_reachable)
  have two: "host_intervals (play (play ?c)) = [Suc (Suc (host_lastId ?c))]"
    using o by (rule play_twice_intervals)
  have "currentSlide (intervalElapsed (play (play ?c)))
           = (currentSlide ?c + 1) mod SLIDES_COUNT ?c" if "ready ?c"
    using one_callback [OF two] that by simp
  then show ?thesis
    using owned_length [OF o] play_once_intervals [OF o] two by simp
qed

theorem single_timer_witness:
  "SwipeCarousel no_options (Some [True, False, False]) = Inr (fresh [True, False, False])
   \<and> host_intervals (run [CallPlay, Mouseenter, CallNext, Mouseleave]
        (init None (fresh [True, False, False]))) = [3]
   \<and> currentSlide (run [CallPlay, Mouseenter, CallNext, Mouseleave]
        (init None (fresh [True, False, False]))) = 1
   \<and> host_intervals (play (play (run [CallPlay, Mouseenter, CallNext, Mouseleave]
        (init None (fresh [True, False, False]))))) = [5]
   \<and> currentSlide (intervalElapsed (play (play (run [CallPlay, Mouseenter, CallNext, Mouseleave]
        (init None (fresh [True, False, False])))))) = 2"
proof -
  let ?evs = "[CallPlay, Mouseenter, CallNext, Mouseleave]"
  let ?c = "run ?evs (init None (fresh [True, False, False]))"
  have h: "SwipeCarousel no_options (Some [True, False, False]) = Inr (fresh [True, False, False])"
    by (rule fresh_constructed)
  have e: "host_intervals ?c = [3]" "currentSlide ?c = 1" "host_lastId ?c = 3"
    "SLIDES_COUNT ?c = 3" "ready ?c"
    by code_simp+
  from single_timer [OF h, of ?evs None] h e show ?thesis by simp
qed

subsection \<open>Swipe gestures\<close>

text \<open>
  Claim C7. What \<^verbatim>\<open>#handleSwipe\<close> does is decided by the classification of
  (startX, endX, threshold) with \<open>diff = startX - endX\<close>: nothing when \<open>\<bar>diff\<bar>\<close> is below
  the threshold, otherwise \<^verbatim>\<open>next()\<close> when \<open>diff > 0\<close> and \<^verbatim>\<open>prev()\<close> when not. With the
  threshold 100: (100, 0) is forward, (99, 0) is no swipe, (0, 150) is backward.
\<close>

theorem swipe_classification:
  "handleSwipe c =
     (case classify (startX c) (endX c) (swipeThreshold c) of
        NoSwipe \<Rightarrow> Inr c | Forward \<Rightarrow> next c | Backward \<Rightarrow> prev c)
   \<and> classify 100 0 100 = Forward
   \<and> classify 99 0 100 = NoSwipe
   \<and> classify 0 150 100 = Backward
   \<and> handleSwipe (c\<lparr>startX := 100, endX := 0, swipeThreshold := 100\<rparr>) =
       next (c\<lparr>startX := 100, endX := 0, swipeThreshold := 100\<rparr>)
   \<and> handleSwipe (c\<lparr>startX := 99, endX := 0, swipeThreshold := 100\<rparr>) =
       Inr (c\<lparr>startX := 99, endX := 0, swipeThreshold := 100\<rparr>)
   \<and> handleSwipe (c\<lparr>startX := 0, endX := 150, swipeThreshold := 100\<rparr>) =
       prev (c\<lparr>startX := 0, endX := 150, swipeThreshold := 100\<rparr>)"
  by (simp add: handleSwipe_def classify_def Let_def)

text \<open>
  Claim C10. A press at \<open>x0\<close> and a release at \<open>x1\<close> closer than the threshold (a click
  on the spot among them) leave the object as it was, the two recorded coordinates apart:
  the current index, \<^verbatim>\<open>isPlaying\<close> and the timer handle are those of before. The same
  holds of a touch.
\<close>

theorem short_gesture_unchanged:
  assumes "\<bar>x0 - x1\<bar> < swipeThreshold c"
  shows "mouseUpHandler x1 (mouseDownHandler x0 c) = Inr (c\<lparr>startX := x0, endX := x1\<rparr>)
    \<and> touchEndHandler x1 (touchStartHandler x0 c) = Inr (c\<lparr>startX := x0, endX := x1\<rparr>)
    \<and> currentSlide (state_of (mouseUpHandler x1 (mouseDownHandler x0 c))) = currentSlide c
    \<and> isPlaying (state_of (mouseUpHandler x1 (mouseDownHandler x0 c))) = isPlaying c
    \<and> timerId (state_of (mouseUpHandler x1 (mouseDownHandler x0 c))) = timerId c"
  using assms
  by (simp add: mouseUpHandler_def mouseDownHandler_def touchEndHandler_def
        touchStartHandler_def handleSwipe_def Let_def state_of_def)

theorem short_gesture_unchanged_witness:
  "\<bar>240 - 240\<bar> < swipeThreshold (init None (fresh [True, False, False]))
   \<and> mouseUpHandler 240 (mouseDownHandler 240 (init None (fresh [True, False, False]))) =
       Inr ((init None (fresh [True, False, False]))\<lparr>startX := 240, endX := 240\<rparr>)
   \<and> currentSlide (state_of (mouseUpHandler 240
        (mouseDownHandler 240 (init None (fresh [True, False, False]))))) = 0
   \<and> isPlaying (state_of (mouseUpHandler 240
        (mouseDownHandler 240 (init None (fresh [True, False, False])))))
   \<and> timerId (state_of (mouseUpHandler 240
        (mouseDownHandler 240 (init None (fresh [True, False, False]))))) = Some 1"
proof -
  have thr: "swipeThreshold (init None (fresh [True, False, False])) = 100"
    by code_simp
  have cur: "currentSlide (init None (fresh [True, False, False])) = 0"
    and pl: "isPlaying (init None (fresh [True, False, False]))"
    and tid: "timerId (init None (fresh [True, False, False])) = Some 1"
    by code_simp+
  have h: "\<bar>240 - 240\<bar> < swipeThreshold (init None (fresh [True, False, False]))"
    by (simp add: thr)
  show ?thesis
    using short_gesture_unchanged [OF h] h by (simp add: cur pl tid state_of_def)
qed

subsection \<open>Hovering\<close>

text \<open>
  Claim C2, as the code has it. After \<^verbatim>\<open>pause()\<close>, a hover-enter followed by a hover-leave
  leaves the carousel playing exactly when \<^verbatim>\<open>pauseOnHover\<close> is set: the mouseleave
  handler calls \<^verbatim>\<open>play()\<close> whenever the carousel is not playing, and nothing records why
  it was paused. The carousel stays paused only when \<^verbatim>\<open>pauseOnHover\<close> is off.
\<close>

theorem hover_after_manual_pause:
  "isPlaying (mouseleaveHandler (mouseenterHandler (pause c))) = pauseOnHover c
   \<and> isPlaying (run [CallPause, Mouseenter, Mouseleave] c) = pauseOnHover c"
  by (simp add: mouseleaveHandler_def mouseenterHandler_def run_def)

text \<open>
  The claim as the specification states it fails on a carousel of three slides built with
  the default options and initialised: it plays, \<^verbatim>\<open>pause()\<close> pauses it, and after the
  hover it plays again.
\<close>

theorem hover_resumes_manual_pause:
  "isPlaying (init None (fresh [True, False, False]))
   \<and> \<not> isPlaying (pause (init None (fresh [True, False, False])))
   \<and> isPlaying (mouseleaveHandler (mouseenterHandler
        (pause (init None (fresh [True, False, False])))))"
  by code_simp

end
